theory Spec2Isabelle
  imports Main "HOL-Library.Word" "HOL-Library.Sublist"
begin

section \<open>JavaScript strings\<close>

text \<open>
  A JavaScript string is a sequence of 16-bit code units. The handlers of
  \<^verbatim>\<open>server.js\<close> and \<^verbatim>\<open>server-activity.js\<close> work on the text that
  \<^verbatim>\<open>chunk.toString()\<close> returns; a chunk below is that text. The decoding of the
  bytes of a chunk into text is done by the runtime and is not part of the model.
\<close>

type_synonym jsstring = "16 word list"

definition js :: "string \<Rightarrow> jsstring" where
  \<comment> \<open>an ASCII literal of the source as code units\<close>
  "js s = map of_char s"

definition is_js_space :: "16 word \<Rightarrow> bool" where
  \<comment> \<open>the code units that \<^verbatim>\<open>String.prototype.trim\<close> strips: white space and line terminators\<close>
  "is_js_space c =
     (c = 0x09 \<or> c = 0x0A \<or> c = 0x0B \<or> c = 0x0C \<or> c = 0x0D \<or> c = 0x20 \<or> c = 0xA0 \<or>
      c = 0x1680 \<or> (0x2000 \<le> c \<and> c \<le> 0x200A) \<or> c = 0x2028 \<or> c = 0x2029 \<or>
      c = 0x202F \<or> c = 0x205F \<or> c = 0x3000 \<or> c = 0xFEFF)"

definition trim :: "jsstring \<Rightarrow> jsstring" where
  "trim s = rev (dropWhile is_js_space (rev (dropWhile is_js_space s)))"

fun split_nl :: "jsstring \<Rightarrow> jsstring list" where
  \<comment> \<open>\<^verbatim>\<open>s.split('\n')\<close>: one segment more than there are newlines\<close>
  "split_nl [] = [[]]"
| "split_nl (c # cs) =
     (if c = 0x0A then [] # split_nl cs
      else (case split_nl cs of [] \<Rightarrow> [[c]] | l # ls \<Rightarrow> (c # l) # ls))"

definition pop_or_empty :: "jsstring list \<Rightarrow> jsstring" where
  \<comment> \<open>\<^verbatim>\<open>lines.pop() || ''\<close>: \<^verbatim>\<open>pop\<close> of an empty array is \<^verbatim>\<open>undefined\<close>, and
      \<^verbatim>\<open>undefined\<close> and the empty string are both falsy\<close>
  "pop_or_empty lines =
     (case rev lines of [] \<Rightarrow> [] | l # _ \<Rightarrow> (if l = [] then [] else l))"

function show_nat :: "nat \<Rightarrow> jsstring" where
  \<comment> \<open>how a template literal prints a non-negative integer: its decimal digits\<close>
  "show_nat n =
     (if n < 10 then [of_nat (48 + n)]
      else show_nat (n div 10) @ [of_nat (48 + n mod 10)])"
  by pat_completeness auto
termination
  by (relation "measure id") auto

declare show_nat.simps [simp del]

section \<open>JavaScript values\<close>

text \<open>
  The values \<^verbatim>\<open>JSON.parse\<close> returns, and \<^verbatim>\<open>undefined\<close>, which reading a
  missing property gives. \<open>JNum m e\<close> stands for the double nearest to the decimal
  \<open>m * 10 ^ e\<close> of a number literal; the literal is kept, not the rounded value. A
  number is falsy when that double is zero, which is when the decimal is at most
  \<open>2 ^ - 1075\<close>, half of the least positive double, in absolute value. An object is
  the list of its members in the order of the text; the last of several members with
  one key is the one a property read sees.
\<close>

datatype jsval =
    JUndefined
  | JNull
  | JBool bool
  | JNum int int
  | JStr jsstring
  | JArr "jsval list"
  | JObj "(jsstring \<times> jsval) list"

fun truthy :: "jsval \<Rightarrow> bool" where
  "truthy JUndefined = False"
| "truthy JNull = False"
| "truthy (JBool b) = b"
| "truthy (JNum m e) = (if 0 \<le> e then m \<noteq> 0 else 10 ^ nat (- e) < \<bar>m\<bar> * 2 ^ 1075)"
| "truthy (JStr s) = (s \<noteq> [])"
| "truthy (JArr xs) = True"
| "truthy (JObj kvs) = True"

fun nullish :: "jsval \<Rightarrow> bool" where
  \<comment> \<open>reading a property of these throws a TypeError\<close>
  "nullish JUndefined = True"
| "nullish JNull = True"
| "nullish v = False"

fun get :: "jsval \<Rightarrow> jsstring \<Rightarrow> jsval" where
  \<comment> \<open>\<^verbatim>\<open>v.k\<close> for a value that is not nullish and a key that no prototype defines,
      as \<^verbatim>\<open>response\<close>, \<^verbatim>\<open>done\<close> and \<^verbatim>\<open>name\<close>\<close>
  "get (JObj kvs) k = (case map_of (rev kvs) k of None \<Rightarrow> JUndefined | Some v \<Rightarrow> v)"
| "get v k = JUndefined"

section \<open>Effects\<close>

text \<open>
  What a handler does to the outside is recorded as a list of effects, in the order
  of the calls. \<open>WsSend v\<close> is \<^verbatim>\<open>ws.send(v)\<close> and \<open>WsClose\<close> is
  \<^verbatim>\<open>ws.close()\<close> on the one socket of \<^verbatim>\<open>server.js\<close>; \<open>SendTo i v\<close> is
  \<^verbatim>\<open>ws.send(JSON.stringify(v))\<close> on the socket of client \<open>i\<close> of
  \<^verbatim>\<open>server-activity.js\<close>; \<open>ConsoleError m a\<close> is \<^verbatim>\<open>console.error(m, a)\<close>;
  \<open>LogActivity i a d\<close> is \<^verbatim>\<open>logClientActivity(i, a, d)\<close>. A call that returns is
  recorded, not interpreted: what the socket library does with it is outside the
  model. A \<^verbatim>\<open>ws.send\<close> that throws is not recorded; the handler's \<^verbatim>\<open>catch\<close>
  is.
\<close>

datatype effect =
    WsSend jsval
  | WsClose
  | SendTo nat jsval
  | ConsoleError jsstring jsstring
  | LogActivity nat jsstring jsval

type_synonym parser = "jsstring \<Rightarrow> jsval option"

definition sendable :: "(jsval \<Rightarrow> bool) \<Rightarrow> jsval \<Rightarrow> bool" where
  \<comment> \<open>whether \<^verbatim>\<open>ws.send(v)\<close> returns; otherwise it throws a TypeError. The socket
      library is not code of the repository: that it takes every string is built in
      here, what it does with any other value is the parameter \<open>accepts\<close>\<close>
  "sendable accepts v = (case v of JStr s \<Rightarrow> True | _ \<Rightarrow> accepts v)"

fun ws_accepts :: "jsval \<Rightarrow> bool" where
  \<comment> \<open>the parameter for the concrete inputs, after the \<^verbatim>\<open>ws\<close> library:
      \<^verbatim>\<open>send\<close> turns a number into its decimal string and hands any other value that
      is not a string to \<^verbatim>\<open>Buffer.from\<close>, which takes an array and throws a
      TypeError for \<^verbatim>\<open>true\<close> and for a plain object (an object that looks like an
      array or a serialised buffer, which \<^verbatim>\<open>Buffer.from\<close> takes, is not told apart
      here)\<close>
  "ws_accepts (JStr s) = True"
| "ws_accepts (JNum m e) = True"
| "ws_accepts (JArr xs) = True"
| "ws_accepts v = False"

section \<open>The stream handlers of server.js\<close>

text \<open>
  \<^verbatim>\<open>JSON.parse\<close> is a parameter: \<open>None\<close> is the SyntaxError it throws. The
  \<^verbatim>\<open>try\<close> block also catches the TypeError of reading \<^verbatim>\<open>data.response\<close> when
  the line decodes to \<^verbatim>\<open>null\<close>, and the TypeError of \<^verbatim>\<open>ws.send(data.response)\<close>
  for a response the socket does not take: the \<^verbatim>\<open>catch\<close> logs the line, the test
  of \<^verbatim>\<open>done\<close> is skipped and the loop goes on.
\<close>

definition bad_json :: jsstring where
  "bad_json = js ''Bad JSON from Ollama:''"

definition generation_complete :: jsval where
  "generation_complete = JStr (js ''\<newline>--- generation complete ---\<newline>'')"

fun server_lines :: "parser \<Rightarrow> (jsval \<Rightarrow> bool) \<Rightarrow> jsstring list \<Rightarrow> effect list" where
  \<comment> \<open>the \<^verbatim>\<open>for (const line of lines)\<close> loop of the data handler; at a record whose
      \<^verbatim>\<open>done\<close> is truthy the handler returns and the rest of the lines is dropped\<close>
  "server_lines parse accepts [] = []"
| "server_lines parse accepts (line # rest) =
     (if trim line = [] then server_lines parse accepts rest
      else case parse line of
        None \<Rightarrow> ConsoleError bad_json line # server_lines parse accepts rest
      | Some data \<Rightarrow>
          if nullish data then ConsoleError bad_json line # server_lines parse accepts rest
          else if truthy (get data (js ''response'')) \<and>
                  \<not> sendable accepts (get data (js ''response''))
          then ConsoleError bad_json line # server_lines parse accepts rest
          else
            (if truthy (get data (js ''response''))
             then [WsSend (get data (js ''response''))] else []) @
            (if truthy (get data (js ''done''))
             then [WsSend generation_complete, WsClose]
             else server_lines parse accepts rest))"

definition server_on_data ::
  "parser \<Rightarrow> (jsval \<Rightarrow> bool) \<Rightarrow> jsstring \<Rightarrow> jsstring \<Rightarrow> jsstring \<times> effect list" where
  \<comment> \<open>\<^verbatim>\<open>response.body.on('data', ...)\<close>: the buffer before, the chunk; the buffer after
      and the effects\<close>
  "server_on_data parse accepts buffer chunk =
     (let buffer1 = buffer @ chunk;
          lines = split_nl buffer1
      in (pop_or_empty lines, server_lines parse accepts (butlast lines)))"

definition server_on_end :: "parser \<Rightarrow> jsstring \<Rightarrow> effect list" where
  \<comment> \<open>\<^verbatim>\<open>response.body.on('end', ...)\<close>\<close>
  "server_on_end parse buffer =
     (if trim buffer = [] then []
      else case parse buffer of
        None \<Rightarrow> [ConsoleError bad_json buffer]
      | Some data \<Rightarrow>
          if nullish data then [ConsoleError bad_json buffer]
          else if truthy (get data (js ''done''))
          then [WsSend generation_complete, WsClose]
          else [])"

definition stream_error_text :: jsval where
  \<comment> \<open>the cross mark U+274C and \<^verbatim>\<open>" Stream error"\<close>\<close>
  "stream_error_text = JStr (0x274C # js '' Stream error'')"

definition server_on_error :: "jsstring \<Rightarrow> effect list" where
  \<comment> \<open>\<^verbatim>\<open>response.body.on('error', ...)\<close>; the argument is the printed error\<close>
  "server_on_error err =
     [ConsoleError (js ''Stream error:'') err, WsSend stream_error_text, WsClose]"

datatype stream_event = Data jsstring | End | Error jsstring

fun server_step ::
  "parser \<Rightarrow> (jsval \<Rightarrow> bool) \<Rightarrow> jsstring \<Rightarrow> stream_event \<Rightarrow> jsstring \<times> effect list" where
  "server_step parse accepts buffer (Data chunk) = server_on_data parse accepts buffer chunk"
| "server_step parse accepts buffer End = (buffer, server_on_end parse buffer)"
| "server_step parse accepts buffer (Error err) = (buffer, server_on_error err)"

fun server_run ::
  "parser \<Rightarrow> (jsval \<Rightarrow> bool) \<Rightarrow> jsstring \<Rightarrow> stream_event list \<Rightarrow> jsstring \<times> effect list" where
  \<comment> \<open>the events of one response body, delivered in order to the handlers, from the
      given buffer\<close>
  "server_run parse accepts buffer [] = (buffer, [])"
| "server_run parse accepts buffer (ev # evs) =
     (let (buffer1, es1) = server_step parse accepts buffer ev;
          (buffer2, es2) = server_run parse accepts buffer1 evs
      in (buffer2, es1 @ es2))"

section \<open>The stream handlers of handleChatMessage in server-activity.js\<close>

record chat_state =
  buffer :: jsstring
  responseTokens :: nat

definition stream_frame :: "jsval \<Rightarrow> jsval" where
  "stream_frame content = JObj [(js ''type'', JStr (js ''stream'')), (js ''content'', content)]"

definition complete_stats :: "nat \<Rightarrow> jsval \<Rightarrow> jsval" where
  "complete_stats tokens model = JObj [(js ''tokens'', JNum (int tokens) 0), (js ''model'', model)]"

definition stream_end_frame :: "nat \<Rightarrow> jsval \<Rightarrow> jsval" where
  "stream_end_frame tokens model =
     JObj [(js ''type'', JStr (js ''stream_end'')),
           (js ''message'', JStr (js ''Generation complete'')),
           (js ''stats'', complete_stats tokens model)]"

fun activity_lines ::
  "parser \<Rightarrow> nat \<Rightarrow> jsval \<Rightarrow> nat \<Rightarrow> jsstring list \<Rightarrow> nat \<times> effect list" where
  \<comment> \<open>the loop of the data handler: client id, \<^verbatim>\<open>payload.model\<close>, the token count
      before, the lines; the token count after and the effects\<close>
  "activity_lines parse cid model tokens [] = (tokens, [])"
| "activity_lines parse cid model tokens (line # rest) =
     (if trim line = [] then activity_lines parse cid model tokens rest
      else case parse line of
        None \<Rightarrow>
          (let (tokens2, es) = activity_lines parse cid model tokens rest
           in (tokens2, ConsoleError bad_json line # es))
      | Some responseData \<Rightarrow>
          if nullish responseData then
            (let (tokens2, es) = activity_lines parse cid model tokens rest
             in (tokens2, ConsoleError bad_json line # es))
          else
            (let tokens1 =
                   (if truthy (get responseData (js ''response'')) then tokens + 1 else tokens);
                 es1 =
                   (if truthy (get responseData (js ''response''))
                    then [SendTo cid (stream_frame (get responseData (js ''response'')))]
                    else []);
                 es2 =
                   (if truthy (get responseData (js ''done''))
                    then [LogActivity cid (js ''OLLAMA_COMPLETE'') (complete_stats tokens1 model),
                          SendTo cid (stream_end_frame tokens1 model)]
                    else []);
                 (tokens2, es) = activity_lines parse cid model tokens1 rest
             in (tokens2, es1 @ es2 @ es)))"

definition activity_on_data ::
  "parser \<Rightarrow> nat \<Rightarrow> jsval \<Rightarrow> chat_state \<Rightarrow> jsstring \<Rightarrow> chat_state \<times> effect list" where
  "activity_on_data parse cid model st chunk =
     (let buffer1 = buffer st @ chunk;
          lines = split_nl buffer1;
          (tokens1, es) = activity_lines parse cid model (responseTokens st) (butlast lines)
      in (\<lparr>buffer = pop_or_empty lines, responseTokens = tokens1\<rparr>, es))"

definition activity_on_end :: "parser \<Rightarrow> nat \<Rightarrow> chat_state \<Rightarrow> effect list" where
  "activity_on_end parse cid st =
     (if trim (buffer st) = [] then []
      else case parse (buffer st) of
        None \<Rightarrow> [ConsoleError (js ''Bad final JSON from Ollama:'') (buffer st)]
      | Some responseData \<Rightarrow>
          if nullish responseData
          then [ConsoleError (js ''Bad final JSON from Ollama:'') (buffer st)]
          else if truthy (get responseData (js ''done''))
          then [SendTo cid (JObj [(js ''type'', JStr (js ''stream_end'')),
                                  (js ''message'', JStr (js ''Generation complete''))])]
          else [])"

definition activity_on_error :: "nat \<Rightarrow> jsval \<Rightarrow> effect list" where
  \<comment> \<open>the second argument is \<^verbatim>\<open>err.message\<close>\<close>
  "activity_on_error cid msg =
     [LogActivity cid (js ''STREAM_ERROR'') (JObj [(js ''error'', msg)]),
      SendTo cid (JObj [(js ''type'', JStr (js ''error'')),
                        (js ''message'', JStr (js ''Stream error occurred''))])]"

fun activity_step ::
  "parser \<Rightarrow> nat \<Rightarrow> jsval \<Rightarrow> chat_state \<Rightarrow> stream_event \<Rightarrow> chat_state \<times> effect list" where
  "activity_step parse cid model st (Data chunk) = activity_on_data parse cid model st chunk"
| "activity_step parse cid model st End = (st, activity_on_end parse cid st)"
| "activity_step parse cid model st (Error err) = (st, activity_on_error cid (JStr err))"

fun activity_run ::
  "parser \<Rightarrow> nat \<Rightarrow> jsval \<Rightarrow> chat_state \<Rightarrow> stream_event list \<Rightarrow> chat_state \<times> effect list" where
  "activity_run parse cid model st [] = (st, [])"
| "activity_run parse cid model st (ev # evs) =
     (let (st1, es1) = activity_step parse cid model st ev;
          (st2, es2) = activity_run parse cid model st1 evs
      in (st2, es1 @ es2))"

section \<open>JSON.parse\<close>

text \<open>
  \<^verbatim>\<open>JSON.parse\<close> is a built-in of the runtime, not code of the repository. The
  handlers take the parser as a parameter, so every general theorem below holds for
  any parser. For the concrete inputs a parser is written out here after the JSON
  grammar (ECMA-404), as \<^verbatim>\<open>JSON.parse\<close> reads it: white space is space, tab, line
  feed and carriage return; a string has no raw control character, and a backslash
  starts an escape (quote, backslash, slash, b, f, n, r, t, or u with four hex
  digits); a number has no leading zero, and digits on both sides of the point;
  nothing but white space follows the value. The first argument of the three
  mutually recursive functions bounds the depth of the recursion, and \<open>JSON_parse\<close>
  starts with more than the length of the text: a step into an array or an object,
  or on to the next element or member, consumes a character, and a step from an
  array to one of its elements has the closing bracket of the array still to come.
\<close>

definition is_json_ws :: "16 word \<Rightarrow> bool" where
  "is_json_ws c = (c = 0x20 \<or> c = 0x09 \<or> c = 0x0A \<or> c = 0x0D)"

definition skip_ws :: "jsstring \<Rightarrow> jsstring" where
  "skip_ws s = dropWhile is_json_ws s"

definition is_digit :: "16 word \<Rightarrow> bool" where
  "is_digit c = (0x30 \<le> c \<and> c \<le> 0x39)"

definition hex_digit :: "16 word \<Rightarrow> 16 word option" where
  "hex_digit c =
     (if 0x30 \<le> c \<and> c \<le> 0x39 then Some (c - 0x30)
      else if 0x61 \<le> c \<and> c \<le> 0x66 then Some (c - 0x57)
      else if 0x41 \<le> c \<and> c \<le> 0x46 then Some (c - 0x37)
      else None)"

definition hex4 :: "16 word \<Rightarrow> 16 word \<Rightarrow> 16 word \<Rightarrow> 16 word \<Rightarrow> 16 word option" where
  "hex4 a b c d =
     (case (hex_digit a, hex_digit b, hex_digit c, hex_digit d) of
        (Some x, Some y, Some z, Some w) \<Rightarrow> Some (((x * 16 + y) * 16 + z) * 16 + w)
      | _ \<Rightarrow> None)"

definition unescape :: "16 word \<Rightarrow> 16 word option" where
  "unescape e =
     (if e = 0x22 then Some 0x22
      else if e = 0x5C then Some 0x5C
      else if e = 0x2F then Some 0x2F
      else if e = 0x62 then Some 0x08
      else if e = 0x66 then Some 0x0C
      else if e = 0x6E then Some 0x0A
      else if e = 0x72 then Some 0x0D
      else if e = 0x74 then Some 0x09
      else None)"

fun string_body :: "jsstring \<Rightarrow> (jsstring \<times> jsstring) option" where
  "string_body [] = None"
| "string_body (c # cs) =
     (if c = 0x22 then Some ([], cs)
      else if c = 0x5C then
        (case cs of
           [] \<Rightarrow> None
         | e # cs1 \<Rightarrow>
             if e = 0x75 then
               (case cs1 of
                  a # b # c # d # cs2 \<Rightarrow>
                    (case hex4 a b c d of
                       None \<Rightarrow> None
                     | Some u \<Rightarrow> map_option (\<lambda>(s, r). (u # s, r)) (string_body cs2))
                | _ \<Rightarrow> None)
             else
               (case unescape e of
                  None \<Rightarrow> None
                | Some x \<Rightarrow> map_option (\<lambda>(s, r). (x # s, r)) (string_body cs1)))
      else if c < 0x20 then None
      else map_option (\<lambda>(s, r). (c # s, r)) (string_body cs))"

definition digits_value :: "jsstring \<Rightarrow> nat" where
  "digits_value ds = foldl (\<lambda>a d. 10 * a + unat (d - 0x30)) 0 ds"

definition number :: "jsstring \<Rightarrow> (jsval \<times> jsstring) option" where
  "number s =
     (let (neg, s1) = (case s of [] \<Rightarrow> (False, s) | c # cs \<Rightarrow> if c = 0x2D then (True, cs) else (False, s));
          (ip, s2) = (case s1 of [] \<Rightarrow> ([], s1)
                      | c # cs \<Rightarrow> if c = 0x30 then ([c], cs)
                                 else (takeWhile is_digit s1, dropWhile is_digit s1))
      in if ip = [] then None
         else
           (let frac = (case s2 of [] \<Rightarrow> Some ([], s2)
                        | c # cs \<Rightarrow> if c = 0x2E
                                   then (if takeWhile is_digit cs = [] then None
                                         else Some (takeWhile is_digit cs, dropWhile is_digit cs))
                                   else Some ([], s2))
            in case frac of
                 None \<Rightarrow> None
               | Some (fd, s3) \<Rightarrow>
                   (let ex = (case s3 of [] \<Rightarrow> Some (0, s3)
                              | c # cs \<Rightarrow>
                                  if c = 0x65 \<or> c = 0x45 then
                                    (let (eneg, s4) = (case cs of [] \<Rightarrow> (False, cs)
                                           | g # gs \<Rightarrow> if g = 0x2D then (True, gs)
                                                      else if g = 0x2B then (False, gs)
                                                      else (False, cs))
                                     in if takeWhile is_digit s4 = [] then None
                                        else Some ((if eneg then - int (digits_value (takeWhile is_digit s4))
                                                    else int (digits_value (takeWhile is_digit s4))),
                                                   dropWhile is_digit s4))
                                  else Some (0, s3))
                    in case ex of
                         None \<Rightarrow> None
                       | Some (e, s5) \<Rightarrow>
                           Some (JNum ((if neg then - int (digits_value (ip @ fd))
                                        else int (digits_value (ip @ fd))))
                                      (e - int (length fd)), s5))))"

fun json_value :: "nat \<Rightarrow> jsstring \<Rightarrow> (jsval \<times> jsstring) option"
  and json_elements :: "nat \<Rightarrow> jsstring \<Rightarrow> (jsval list \<times> jsstring) option"
  and json_members :: "nat \<Rightarrow> jsstring \<Rightarrow> ((jsstring \<times> jsval) list \<times> jsstring) option" where
  "json_value 0 s = None"
| "json_value (Suc n) s =
     (case skip_ws s of
        [] \<Rightarrow> None
      | c # cs \<Rightarrow>
          if c = 0x7B then
            (case skip_ws cs of
               [] \<Rightarrow> None
             | d # ds \<Rightarrow>
                 if d = 0x7D then Some (JObj [], ds)
                 else map_option (\<lambda>(kvs, r). (JObj kvs, r)) (json_members n (d # ds)))
          else if c = 0x5B then
            (case skip_ws cs of
               [] \<Rightarrow> None
             | d # ds \<Rightarrow>
                 if d = 0x5D then Some (JArr [], ds)
                 else map_option (\<lambda>(vs, r). (JArr vs, r)) (json_elements n (d # ds)))
          else if c = 0x22 then map_option (\<lambda>(t, r). (JStr t, r)) (string_body cs)
          else if take 4 (c # cs) = js ''true'' then Some (JBool True, drop 4 (c # cs))
          else if take 5 (c # cs) = js ''false'' then Some (JBool False, drop 5 (c # cs))
          else if take 4 (c # cs) = js ''null'' then Some (JNull, drop 4 (c # cs))
          else number (c # cs))"
| "json_elements 0 s = None"
| "json_elements (Suc n) s =
     (case json_value n s of
        None \<Rightarrow> None
      | Some (v, r) \<Rightarrow>
          (case skip_ws r of
             [] \<Rightarrow> None
           | c # cs \<Rightarrow>
               if c = 0x5D then Some ([v], cs)
               else if c = 0x2C then map_option (\<lambda>(vs, r1). (v # vs, r1)) (json_elements n cs)
               else None))"
| "json_members 0 s = None"
| "json_members (Suc n) s =
     (case skip_ws s of
        [] \<Rightarrow> None
      | q # qs \<Rightarrow>
          if q \<noteq> 0x22 then None
          else
            (case string_body qs of
               None \<Rightarrow> None
             | Some (k, r) \<Rightarrow>
                 (case skip_ws r of
                    [] \<Rightarrow> None
                  | c # cs \<Rightarrow>
                      if c \<noteq> 0x3A then None
                      else
                        (case json_value n cs of
                           None \<Rightarrow> None
                         | Some (v, r1) \<Rightarrow>
                             (case skip_ws r1 of
                                [] \<Rightarrow> None
                              | e # es \<Rightarrow>
                                  if e = 0x7D then Some ([(k, v)], es)
                                  else if e = 0x2C
                                  then map_option (\<lambda>(kvs, r2). ((k, v) # kvs, r2)) (json_members n es)
                                  else None)))))"

definition JSON_parse :: "jsstring \<Rightarrow> jsval option" where
  "JSON_parse s =
     (case json_value (Suc (length s)) s of
        None \<Rightarrow> None
      | Some (v, r) \<Rightarrow> if skip_ws r = [] then Some v else None)"

section \<open>The client registry of server-activity.js\<close>

text \<open>
  \<^verbatim>\<open>clients\<close> is a \<^verbatim>\<open>Map\<close> from client id to client information, iterated
  in insertion order: an association list. Of a socket the model keeps what the code
  reads, its \<^verbatim>\<open>readyState\<close>, and a number that tells sockets apart. The clock
  (\<^verbatim>\<open>new Date().toISOString()\<close>), the printing of a date and the string
  conversion of a template literal are parameters.
\<close>

record websocket =
  socket :: nat
  readyState :: nat

record client_info =
  ws :: websocket
  name :: jsval
  connectedAt :: nat
  lastActivity :: nat
  ip :: jsval
  userAgent :: jsval

type_synonym registry = "(nat \<times> client_info) list"

definition broadcast_frame :: "jsstring \<Rightarrow> jsval \<Rightarrow> jsval" where
  "broadcast_frame stamp message =
     JObj [(js ''type'', JStr (js ''broadcast'')),
           (js ''message'', message),
           (js ''timestamp'', JStr stamp)]"

fun broadcast :: "(nat \<Rightarrow> jsstring) \<Rightarrow> jsval \<Rightarrow> nat option \<Rightarrow> registry \<Rightarrow> effect list" where
  \<comment> \<open>\<^verbatim>\<open>clients.forEach\<close>; \<open>now i\<close> is the time stamp taken when client \<open>i\<close> is
      reached, and \<open>None\<close> is the default \<^verbatim>\<open>excludeClientId = null\<close>\<close>
  "broadcast now message excludeClientId [] = []"
| "broadcast now message excludeClientId ((i, client) # rest) =
     (if Some i \<noteq> excludeClientId \<and> readyState (ws client) = 1
      then SendTo i (broadcast_frame (now i) message) # broadcast now message excludeClientId rest
      else broadcast now message excludeClientId rest)"

definition client_list :: "(nat \<Rightarrow> jsstring) \<Rightarrow> registry \<Rightarrow> jsval" where
  "client_list iso_date clients =
     JArr (map (\<lambda>(i, client).
            JObj [(js ''id'', JNum (int i) 0),
                  (js ''name'', name client),
                  (js ''connected'', JStr (iso_date (connectedAt client))),
                  (js ''lastActivity'', JNum (int (lastActivity client)) 0)]) clients)"

definition sendClientList ::
  "(nat \<Rightarrow> jsstring) \<Rightarrow> (nat \<Rightarrow> jsstring) \<Rightarrow> registry \<Rightarrow> effect list" where
  "sendClientList now iso_date clients =
     broadcast now
       (JObj [(js ''type'', JStr (js ''client_list'')), (js ''clients'', client_list iso_date clients)])
       None clients"

definition default_name :: "nat \<Rightarrow> jsval" where
  \<comment> \<open>the template literal \<^verbatim>\<open>`Client-${clientId}`\<close>\<close>
  "default_name clientId = JStr (js ''Client-'' @ show_nat clientId)"

definition set_client_name :: "nat \<Rightarrow> jsval \<Rightarrow> registry \<Rightarrow> registry" where
  \<comment> \<open>the assignment \<^verbatim>\<open>client.name = ...\<close> to the object the map holds for the id\<close>
  "set_client_name clientId n clients =
     map (\<lambda>(i, client). if i = clientId then (i, client\<lparr>name := n\<rparr>) else (i, client)) clients"

definition handleSetName ::
  "(jsval \<Rightarrow> jsstring) \<Rightarrow> (nat \<Rightarrow> jsstring) \<Rightarrow> (nat \<Rightarrow> jsstring) \<Rightarrow> (nat \<Rightarrow> jsstring) \<Rightarrow>
   registry \<Rightarrow> nat \<Rightarrow> jsval \<Rightarrow> registry \<times> effect list" where
  \<comment> \<open>\<open>to_string\<close> is the conversion of the template literal, \<open>now1\<close> and \<open>now2\<close>
      the clocks of the two broadcasts, \<open>iso_date\<close> prints a date; \<open>newName\<close> is \<^verbatim>\<open>data.name\<close>\<close>
  "handleSetName to_string now1 now2 iso_date clients clientId newName =
     (case map_of clients clientId of
        None \<Rightarrow> (clients, [])
      | Some client \<Rightarrow>
          (let oldName = name client;
               name1 = (if truthy newName then newName else default_name clientId);
               clients1 = set_client_name clientId name1 clients
           in (clients1,
               [LogActivity clientId (js ''NAME_CHANGED'')
                  (JObj [(js ''oldName'', oldName), (js ''newName'', name1)]),
                SendTo clientId
                  (JObj [(js ''type'', JStr (js ''name_set'')),
                         (js ''name'', name1),
                         (js ''message'', JStr (js ''Name changed to: '' @ to_string name1))])] @
               broadcast now1
                 (JObj [(js ''type'', JStr (js ''client_name_changed'')),
                        (js ''clientId'', JNum (int clientId) 0),
                        (js ''oldName'', oldName),
                        (js ''newName'', name1)])
                 (Some clientId) clients1 @
               sendClientList now2 iso_date clients1)))"

definition map_set :: "nat \<Rightarrow> client_info \<Rightarrow> registry \<Rightarrow> registry" where
  \<comment> \<open>\<^verbatim>\<open>clients.set(k, v)\<close>: a known key keeps its place, a new one goes last\<close>
  "map_set k v clients =
     (if k \<in> fst ` set clients
      then map (\<lambda>(i, client). if i = k then (i, v) else (i, client)) clients
      else clients @ [(k, v)])"

definition register_client ::
  "nat \<Rightarrow> websocket \<Rightarrow> nat \<Rightarrow> nat \<Rightarrow> jsval \<Rightarrow> jsval \<Rightarrow> registry \<Rightarrow> nat \<times> registry" where
  \<comment> \<open>the first statements of the connection handler: the counter before, the socket,
      the two readings of \<^verbatim>\<open>Date.now()\<close>, the address and the user agent; the
      counter after, which is the new client's id, and the registry\<close>
  "register_client clientIdCounter sock t1 t2 addr agent clients =
     (let clientId = clientIdCounter + 1;
          clientInfo = \<lparr>ws = sock, name = default_name clientId, connectedAt = t1,
                        lastActivity = t2, ip = addr, userAgent = agent\<rparr>
      in (clientId, map_set clientId clientInfo clients))"

datatype js_error = TypeError

definition handleBroadcast ::
  "(nat \<Rightarrow> jsstring) \<Rightarrow> jsstring \<Rightarrow> registry \<Rightarrow> nat \<Rightarrow> jsval \<Rightarrow> js_error + effect list" where
  \<comment> \<open>\<open>message\<close> is \<^verbatim>\<open>data.message\<close>; \<^verbatim>\<open>message.substring\<close> throws a TypeError
      unless it is a string; \<open>sent_at\<close> is the time stamp inside the message\<close>
  "handleBroadcast now sent_at clients clientId message =
     (case map_of clients clientId of
        None \<Rightarrow> Inr []
      | Some client \<Rightarrow>
          (case message of
             JStr m \<Rightarrow>
               Inr ([LogActivity clientId (js ''BROADCAST_SENT'')
                       (JObj [(js ''message'', JStr (take 50 m @ js ''...''))])] @
                    broadcast now
                      (JObj [(js ''type'', JStr (js ''user_broadcast'')),
                             (js ''from'', name client),
                             (js ''fromId'', JNum (int clientId) 0),
                             (js ''message'', message),
                             (js ''timestamp'', JStr sent_at)])
                      (Some clientId) clients @
                    [SendTo clientId
                       (JObj [(js ''type'', JStr (js ''broadcast_sent'')),
                              (js ''message'', JStr (js ''Message broadcasted to all clients''))])])
           | _ \<Rightarrow> Inl TypeError))"

section \<open>Notions used to state the properties\<close>

definition init_chat :: chat_state where
  \<comment> \<open>\<^verbatim>\<open>let buffer = ''; let responseTokens = 0;\<close>\<close>
  "init_chat = \<lparr>buffer = [], responseTokens = 0\<rparr>"

fun until_close :: "effect list \<Rightarrow> effect list" where
  \<comment> \<open>the effects up to and including the first \<^verbatim>\<open>ws.close()\<close>\<close>
  "until_close [] = []"
| "until_close (e # es) = (if e = WsClose then [WsClose] else e # until_close es)"

definition line_effects :: "parser \<Rightarrow> (jsval \<Rightarrow> bool) \<Rightarrow> jsstring \<Rightarrow> effect list" where
  \<comment> \<open>the body of the loop of the data handler of \<^verbatim>\<open>server.js\<close> for one line,
      written out without the loop: nothing for a blank line, a report for a line that
      does not decode or whose handling throws, the response and the terminal
      handling for a record\<close>
  "line_effects parse accepts line =
     (if trim line = [] then []
      else case parse line of
        None \<Rightarrow> [ConsoleError bad_json line]
      | Some data \<Rightarrow>
          if nullish data then [ConsoleError bad_json line]
          else if truthy (get data (js ''response'')) \<and>
                  \<not> sendable accepts (get data (js ''response''))
          then [ConsoleError bad_json line]
          else
            (if truthy (get data (js ''response''))
             then [WsSend (get data (js ''response''))] else []) @
            (if truthy (get data (js ''done''))
             then [WsSend generation_complete, WsClose] else []))"

fun upto_done :: "parser \<Rightarrow> (jsval \<Rightarrow> bool) \<Rightarrow> jsstring list \<Rightarrow> jsstring list" where
  \<comment> \<open>the lines of one chunk up to and including the first at which the handler
      closes the socket and returns\<close>
  "upto_done parse accepts [] = []"
| "upto_done parse accepts (l # ls) =
     (if WsClose \<in> set (line_effects parse accepts l) then [l]
      else l # upto_done parse accepts ls)"

fun chunk_lines :: "jsstring \<Rightarrow> jsstring list \<Rightarrow> jsstring list list" where
  \<comment> \<open>from a buffer, the complete lines that each chunk of a sequence brings\<close>
  "chunk_lines b [] = []"
| "chunk_lines b (c # cs) =
     butlast (split_nl (b @ c)) # chunk_lines (last (split_nl (b @ c))) cs"

section \<open>The buffer after a chunk\<close>

lemma split_nl_not_Nil: "split_nl s \<noteq> []"
  by (induction s) (auto split: list.splits)

lemma last_split_nl_no_newline: "0x0A \<notin> set (last (split_nl s))"
proof (induction s)
  case Nil
  show ?case by simp
next
  case (Cons c cs)
  show ?case
  proof (cases "split_nl cs")
    case Nil
    with split_nl_not_Nil show ?thesis by blast
  next
    case (Cons l ls)
    with Cons.IH show ?thesis by (cases ls) auto
  qed
qed

lemma pop_or_empty_last: "lines \<noteq> [] \<Longrightarrow> pop_or_empty lines = last lines"
  by (cases lines rule: rev_cases) (simp_all add: pop_or_empty_def)

lemma pop_or_empty_split: "pop_or_empty (split_nl s) = last (split_nl s)"
  by (rule pop_or_empty_last) (rule split_nl_not_Nil)

lemma split_nl_Cons:
  "split_nl (c # cs) =
     (if c = 0x0A then [] # split_nl cs else (c # hd (split_nl cs)) # tl (split_nl cs))"
  using split_nl_not_Nil [of cs] by (cases "split_nl cs") simp_all

lemma split_nl_append:
  "split_nl (x @ y) =
     butlast (split_nl x) @ (last (split_nl x) @ hd (split_nl y)) # tl (split_nl y)"
proof (induction x)
  case Nil
  show ?case using split_nl_not_Nil [of y] by (cases "split_nl y") simp_all
next
  case (Cons c cs)
  show ?case
  proof (cases "c = 0x0A")
    case True
    with Cons.IH split_nl_not_Nil [of cs] show ?thesis by simp
  next
    case False
    have "split_nl ((c # cs) @ y) = (c # hd (split_nl (cs @ y))) # tl (split_nl (cs @ y))"
      using False by (simp add: split_nl_Cons del: split_nl.simps)
    also have "\<dots> = butlast (split_nl (c # cs)) @
        (last (split_nl (c # cs)) @ hd (split_nl y)) # tl (split_nl y)"
    proof (cases "split_nl cs")
      case Nil
      with split_nl_not_Nil show ?thesis by blast
    next
      case (Cons l ls)
      show ?thesis
        using False Cons by (cases ls) (simp_all add: Cons.IH)
    qed
    finally show ?thesis .
  qed
qed

lemma split_nl_no_newline: "0x0A \<notin> set s \<Longrightarrow> split_nl s = [s]"
  by (induction s) auto

lemma split_nl_tail: "split_nl (last (split_nl x)) = [last (split_nl x)]"
  by (rule split_nl_no_newline) (rule last_split_nl_no_newline)

lemma butlast_split_nl_append:
  "butlast (split_nl (x @ y)) = butlast (split_nl x) @ butlast (split_nl (last (split_nl x) @ y))"
  by (simp add: split_nl_append [of x y] split_nl_append [of "last (split_nl x)" y]
      split_nl_tail butlast_append del: split_nl.simps)

lemma last_split_nl_append:
  "last (split_nl (x @ y)) = last (split_nl (last (split_nl x) @ y))"
  by (simp add: split_nl_append [of x y] split_nl_append [of "last (split_nl x)" y]
      split_nl_tail del: split_nl.simps)

text \<open>
  C3. After the data handler of either server has processed a chunk, the buffer is
  the last segment of the newline split of the old buffer followed by the chunk,
  whether or not that text ends in a newline; so the buffer holds no newline: it
  is empty or one incomplete line.
\<close>

theorem buffer_after_chunk:
  "fst (server_on_data parse accepts b chunk) = last (split_nl (b @ chunk)) \<and>
   0x0A \<notin> set (fst (server_on_data parse accepts b chunk)) \<and>
   buffer (fst (activity_on_data parse cid model st chunk)) = last (split_nl (buffer st @ chunk)) \<and>
   0x0A \<notin> set (buffer (fst (activity_on_data parse cid model st chunk)))"
  by (simp add: server_on_data_def activity_on_data_def Let_def pop_or_empty_split
      last_split_nl_no_newline split: prod.splits)

section \<open>Feeding a text in pieces\<close>

lemma activity_lines_append:
  "activity_lines parse cid model t (xs @ ys) =
     (let (t1, e1) = activity_lines parse cid model t xs;
          (t2, e2) = activity_lines parse cid model t1 ys
      in (t2, e1 @ e2))"
  by (induction xs arbitrary: t) (auto simp: Let_def split: prod.splits option.splits)

lemma activity_on_data_append:
  "activity_on_data parse cid model st (c1 @ c2) =
     (let (st1, e1) = activity_on_data parse cid model st c1;
          (st2, e2) = activity_on_data parse cid model st1 c2
      in (st2, e1 @ e2))"
  using butlast_split_nl_append [of "buffer st @ c1" c2]
    last_split_nl_append [of "buffer st @ c1" c2]
  by (simp add: activity_on_data_def Let_def pop_or_empty_split activity_lines_append
      split: prod.splits del: split_nl.simps)

lemma activity_on_data_empty:
  "0x0A \<notin> set (buffer st) \<Longrightarrow> activity_on_data parse cid model st [] = (st, [])"
  by (simp add: activity_on_data_def split_nl_no_newline pop_or_empty_def)

lemma activity_on_data_buffer:
  "0x0A \<notin> set (buffer (fst (activity_on_data parse cid model st c)))"
  by (simp add: activity_on_data_def Let_def pop_or_empty_split last_split_nl_no_newline
      split: prod.splits)

lemma activity_run_chunks:
  "0x0A \<notin> set (buffer st) \<Longrightarrow>
   activity_run parse cid model st (map Data cs) = activity_on_data parse cid model st (concat cs)"
proof (induction cs arbitrary: st)
  case Nil
  then show ?case by (simp add: activity_on_data_empty)
next
  case (Cons c cs)
  obtain st1 e1 where a: "activity_on_data parse cid model st c = (st1, e1)"
    by (cases "activity_on_data parse cid model st c")
  have "0x0A \<notin> set (buffer st1)"
    using activity_on_data_buffer [of parse cid model st c] a by simp
  then have "activity_run parse cid model st1 (map Data cs) =
      activity_on_data parse cid model st1 (concat cs)"
    by (rule Cons.IH)
  with a show ?case
    by (simp add: activity_on_data_append split: prod.splits)
qed

lemma server_lines_append:
  "server_lines parse accepts (xs @ ys) =
     (if WsClose \<in> set (server_lines parse accepts xs) then server_lines parse accepts xs
      else server_lines parse accepts xs @ server_lines parse accepts ys)"
  by (induction xs) (auto split: option.splits)

lemma until_close_append:
  "until_close (xs @ ys) = (if WsClose \<in> set xs then until_close xs else xs @ until_close ys)"
  by (induction xs) auto

lemma until_close_server_lines: "until_close (server_lines parse accepts xs) = server_lines parse accepts xs"
  by (induction xs) (auto split: option.splits)

lemma server_on_data_append:
  "server_on_data parse accepts b (c1 @ c2) =
     (fst (server_on_data parse accepts (fst (server_on_data parse accepts b c1)) c2),
      (if WsClose \<in> set (snd (server_on_data parse accepts b c1)) then snd (server_on_data parse accepts b c1)
       else snd (server_on_data parse accepts b c1) @
            snd (server_on_data parse accepts (fst (server_on_data parse accepts b c1)) c2)))"
  using butlast_split_nl_append [of "b @ c1" c2] last_split_nl_append [of "b @ c1" c2]
  by (simp add: server_on_data_def Let_def pop_or_empty_split server_lines_append
      del: split_nl.simps)

lemma server_on_data_empty: "0x0A \<notin> set b \<Longrightarrow> server_on_data parse accepts b [] = (b, [])"
  by (simp add: server_on_data_def split_nl_no_newline pop_or_empty_def)

lemma server_on_data_buffer: "0x0A \<notin> set (fst (server_on_data parse accepts b c))"
  by (simp add: server_on_data_def Let_def pop_or_empty_split last_split_nl_no_newline)

lemma until_close_server_on_data:
  "until_close (snd (server_on_data parse accepts b c)) = snd (server_on_data parse accepts b c)"
  by (simp add: server_on_data_def Let_def until_close_server_lines)

lemma server_run_chunks:
  "0x0A \<notin> set b \<Longrightarrow>
   server_on_data parse accepts b (concat cs) =
     (fst (server_run parse accepts b (map Data cs)), until_close (snd (server_run parse accepts b (map Data cs))))"
proof (induction cs arbitrary: b)
  case Nil
  then show ?case by (simp add: server_on_data_empty)
next
  case (Cons c cs)
  obtain b1 e1 where a: "server_on_data parse accepts b c = (b1, e1)"
    by (cases "server_on_data parse accepts b c")
  have nl: "0x0A \<notin> set b1"
    using server_on_data_buffer [of parse accepts b c] a by simp
  have e1: "until_close e1 = e1"
    using until_close_server_on_data [of parse accepts b c] a by simp
  have ih: "server_on_data parse accepts b1 (concat cs) =
     (fst (server_run parse accepts b1 (map Data cs)), until_close (snd (server_run parse accepts b1 (map Data cs))))"
    using nl by (rule Cons.IH)
  show ?case
    using a e1 ih
    by (simp add: server_on_data_append until_close_append split: prod.splits)
qed

section \<open>Evaluation on concrete inputs\<close>

lemmas eval_defs =
  js_def trim_def is_js_space_def pop_or_empty_def Let_def sendable_def
  server_on_data_def server_on_end_def activity_on_data_def activity_on_end_def init_chat_def
  JSON_parse_def skip_ws_def is_json_ws_def number_def is_digit_def
  digits_value_def hex4_def hex_digit_def unescape_def

lemma server_split_example:
  \<open>server_run JSON_parse ws_accepts [] [Data (js ''{"resp''), Data (js ''onse":"x"}\<newline>'')] =
     ([], [WsSend (JStr (js ''x''))])\<close>
  by (simp add: eval_defs)

lemma server_whole_example:
  \<open>server_run JSON_parse ws_accepts [] [Data (js ''{"response":"x"}\<newline>'')] =
     ([], [WsSend (JStr (js ''x''))])\<close>
  by (simp add: eval_defs)

lemma activity_split_example:
  \<open>activity_run JSON_parse cid model init_chat
       [Data (js ''{"resp''), Data (js ''onse":"x"}\<newline>'')] =
     (\<lparr>buffer = [], responseTokens = 1\<rparr>, [SendTo cid (stream_frame (JStr (js ''x'')))])\<close>
  by (simp add: eval_defs)

lemma activity_whole_example:
  \<open>activity_run JSON_parse cid model init_chat [Data (js ''{"response":"x"}\<newline>'')] =
     (\<lparr>buffer = [], responseTokens = 1\<rparr>, [SendTo cid (stream_frame (JStr (js ''x'')))])\<close>
  by (simp add: eval_defs)

section \<open>C1: split invariance\<close>

text \<open>
  C1, as amended. The handlers work on text. For every text and every way of cutting
  it into chunks, the data handler of \<^verbatim>\<open>server-activity.js\<close>, started from its
  initial state, ends in the same state and has the same effects, in the same order,
  whether it is fed the chunks one by one or the whole text as one chunk. The data
  handler of \<^verbatim>\<open>server.js\<close> ends with the same buffer, and the effects of the one
  chunk are the effects of the pieces up to and including the first
  \<^verbatim>\<open>ws.close()\<close>. The two chunks \<^verbatim>\<open>{"resp\<close> and \<^verbatim>\<open>onse":"x"}\<close> with a
  newline give, as their concatenation does, the one record whose response is
  \<^verbatim>\<open>x\<close>.
\<close>

theorem split_invariance:
  \<open>activity_run parse cid model init_chat (map Data cs) =
     activity_run parse cid model init_chat [Data (concat cs)] \<and>
   server_run parse accepts [] [Data (concat cs)] =
     (fst (server_run parse accepts [] (map Data cs)),
      until_close (snd (server_run parse accepts [] (map Data cs)))) \<and>
   server_run JSON_parse ws_accepts [] [Data (js ''{"resp''), Data (js ''onse":"x"}\<newline>'')] =
     ([], [WsSend (JStr (js ''x''))]) \<and>
   server_run JSON_parse ws_accepts [] [Data (js ''{"response":"x"}\<newline>'')] =
     ([], [WsSend (JStr (js ''x''))]) \<and>
   activity_run JSON_parse cid model init_chat
       [Data (js ''{"resp''), Data (js ''onse":"x"}\<newline>'')] =
     (\<lparr>buffer = [], responseTokens = 1\<rparr>, [SendTo cid (stream_frame (JStr (js ''x'')))]) \<and>
   activity_run JSON_parse cid model init_chat [Data (js ''{"response":"x"}\<newline>'')] =
     (\<lparr>buffer = [], responseTokens = 1\<rparr>, [SendTo cid (stream_frame (JStr (js ''x'')))])\<close>
proof -
  have a: "activity_run parse cid model init_chat (map Data cs) =
     activity_run parse cid model init_chat [Data (concat cs)]"
    using activity_run_chunks [of init_chat parse cid model cs]
    by (simp add: init_chat_def split: prod.splits)
  have s: "server_run parse accepts [] [Data (concat cs)] =
     (fst (server_run parse accepts [] (map Data cs)),
      until_close (snd (server_run parse accepts [] (map Data cs))))"
    using server_run_chunks [of "[]" parse accepts cs] by (simp split: prod.splits)
  show ?thesis
    using a s server_split_example server_whole_example
      activity_split_example [of cid model] activity_whole_example [of cid model]
    by blast
qed

text \<open>
  C1 as stated fails for \<^verbatim>\<open>server.js\<close>: a record with \<^verbatim>\<open>done\<close> makes the
  handler return from the chunk at hand only. A line that follows it is dropped when
  it comes in the same chunk and is decoded and sent when it comes in the next.
\<close>

theorem split_invariance_counterexample:
  \<open>snd (server_run JSON_parse ws_accepts []
          [Data (js ''{"done":true}\<newline>''), Data (js ''{"response":"x"}\<newline>'')]) =
     [WsSend generation_complete, WsClose, WsSend (JStr (js ''x''))] \<and>
   snd (server_run JSON_parse ws_accepts []
          [Data (js ''{"done":true}\<newline>'' @ js ''{"response":"x"}\<newline>'')]) =
     [WsSend generation_complete, WsClose] \<and>
   snd (server_run JSON_parse ws_accepts []
          [Data (js ''{"done":true}\<newline>''), Data (js ''{"response":"x"}\<newline>'')]) \<noteq>
   snd (server_run JSON_parse ws_accepts []
          [Data (js ''{"done":true}\<newline>'' @ js ''{"response":"x"}\<newline>'')])\<close>
  by (simp add: eval_defs)

section \<open>C2: the end of the stream\<close>

text \<open>
  C2. At the end of the stream both servers decode what is left in the buffer, but of
  the decoded record they look at \<^verbatim>\<open>done\<close> only. A last line
  \<^verbatim>\<open>{"response":"x"}\<close> without a newline is decoded and then dropped: nothing is
  sent, where the data handler sends \<^verbatim>\<open>x\<close> for the same line followed by a
  newline. A buffer holding \<^verbatim>\<open>{"done":true}\<close> does give the completion message.
\<close>

theorem flush_drops_response:
  \<open>server_on_end JSON_parse (js ''{"response":"x"}'') = [] \<and>
   snd (server_on_data JSON_parse ws_accepts [] (js ''{"response":"x"}\<newline>'')) = [WsSend (JStr (js ''x''))] \<and>
   activity_on_end JSON_parse cid \<lparr>buffer = js ''{"response":"x"}'', responseTokens = 0\<rparr> = [] \<and>
   snd (activity_on_data JSON_parse cid model init_chat (js ''{"response":"x"}\<newline>'')) =
     [SendTo cid (stream_frame (JStr (js ''x'')))] \<and>
   server_on_end JSON_parse (js ''{"done":true}'') = [WsSend generation_complete, WsClose]\<close>
  by (simp add: eval_defs)

section \<open>C4: after a record with done\<close>




section \<open>C5: a line that does not decode\<close>

text \<open>
  C5. In the loop of either data handler, a segment that is empty or all white space
  is skipped without any effect, and a segment that fails to decode is reported with
  \<^verbatim>\<open>console.error\<close> and skipped; in both cases the loop goes on with the rest of
  the segments. The chunk with a line of garbage between the records with responses
  \<^verbatim>\<open>a\<close> and \<^verbatim>\<open>b\<close> gives exactly the two responses, \<^verbatim>\<open>a\<close> then \<^verbatim>\<open>b\<close>,
  and one report between them.
\<close>

theorem decode_failure_is_local:
  \<open>(trim line = [] \<longrightarrow>
      server_lines parse accepts (line # rest) = server_lines parse accepts rest \<and>
      activity_lines parse cid model t (line # rest) = activity_lines parse cid model t rest) \<and>
   (trim line \<noteq> [] \<and> parse line = None \<longrightarrow>
      server_lines parse accepts (line # rest) = ConsoleError bad_json line # server_lines parse accepts rest \<and>
      activity_lines parse cid model t (line # rest) =
        (fst (activity_lines parse cid model t rest),
         ConsoleError bad_json line # snd (activity_lines parse cid model t rest))) \<and>
   server_on_data JSON_parse ws_accepts []
       (js ''{"response":"a"}\<newline> garbage \<newline>{"response":"b"}\<newline>'') =
     ([], [WsSend (JStr (js ''a'')), ConsoleError bad_json (js '' garbage ''),
           WsSend (JStr (js ''b''))]) \<and>
   activity_on_data JSON_parse cid model init_chat
       (js ''{"response":"a"}\<newline> garbage \<newline>{"response":"b"}\<newline>'') =
     (\<lparr>buffer = [], responseTokens = 2\<rparr>,
      [SendTo cid (stream_frame (JStr (js ''a''))), ConsoleError bad_json (js '' garbage ''),
       SendTo cid (stream_frame (JStr (js ''b'')))])\<close>
proof -
  have ex1: \<open>server_on_data JSON_parse ws_accepts []
       (js ''{"response":"a"}\<newline> garbage \<newline>{"response":"b"}\<newline>'') =
     ([], [WsSend (JStr (js ''a'')), ConsoleError bad_json (js '' garbage ''),
           WsSend (JStr (js ''b''))])\<close>
    by (simp add: eval_defs)
  have ex2: \<open>activity_on_data JSON_parse cid model init_chat
       (js ''{"response":"a"}\<newline> garbage \<newline>{"response":"b"}\<newline>'') =
     (\<lparr>buffer = [], responseTokens = 2\<rparr>,
      [SendTo cid (stream_frame (JStr (js ''a''))), ConsoleError bad_json (js '' garbage ''),
       SendTo cid (stream_frame (JStr (js ''b'')))])\<close>
    by (simp add: eval_defs)
  show ?thesis
    using ex1 ex2 by (simp split: prod.splits)
qed

theorem decode_failure_is_local_witness:
  \<open>trim (js ''   '') = [] \<and>
   server_lines JSON_parse ws_accepts [js ''   '', js ''{"response":"b"}''] =
     server_lines JSON_parse ws_accepts [js ''{"response":"b"}''] \<and>
   trim (js '' garbage '') \<noteq> [] \<and> JSON_parse (js '' garbage '') = None \<and>
   server_lines JSON_parse ws_accepts [js '' garbage '', js ''{"response":"b"}''] =
     ConsoleError bad_json (js '' garbage '') # server_lines JSON_parse ws_accepts [js ''{"response":"b"}'']\<close>
proof -
  have h1: \<open>trim (js ''   '') = []\<close>
    by (simp add: eval_defs)
  have h2: \<open>trim (js '' garbage '') \<noteq> []\<close>
    by (simp add: eval_defs)
  have h3: \<open>JSON_parse (js '' garbage '') = None\<close>
    by (simp add: eval_defs)
  show ?thesis
    using h1 h2 h3
      decode_failure_is_local [of \<open>js ''   ''\<close> JSON_parse ws_accepts \<open>[js ''{"response":"b"}'']\<close> 0 JNull 0]
      decode_failure_is_local [of \<open>js '' garbage ''\<close> JSON_parse ws_accepts \<open>[js ''{"response":"b"}'']\<close> 0 JNull 0]
    by (simp del: server_lines.simps activity_lines.simps)
qed

section \<open>C6: the order of the effects\<close>

lemma until_close_none: "WsClose \<notin> set es \<Longrightarrow> until_close es = es"
  by (induction es) auto

lemma line_effects_eq: "server_lines parse accepts [l] = line_effects parse accepts l"
  by (simp add: line_effects_def split: option.splits)

lemma server_lines_Cons:
  "server_lines parse accepts (l # rest) =
     (if WsClose \<in> set (line_effects parse accepts l) then line_effects parse accepts l
      else line_effects parse accepts l @ server_lines parse accepts rest)"
  using server_lines_append [of parse accepts "[l]" rest]
  by (simp add: line_effects_eq del: server_lines.simps)

lemma server_lines_upto_done:
  "server_lines parse accepts ls =
     concat (map (line_effects parse accepts) (upto_done parse accepts ls))"
proof (induction ls)
  case Nil
  show ?case by simp
next
  case (Cons l rest)
  then show ?case
    by (simp add: server_lines_Cons [of parse accepts l rest] del: server_lines.simps)
qed

lemma upto_done_prefix: "prefix (upto_done parse accepts ls) ls"
  by (induction ls) auto

lemma upto_done_all:
  "WsClose \<notin> set (server_lines parse accepts ls) \<Longrightarrow> upto_done parse accepts ls = ls"
proof (induction ls)
  case Nil
  show ?case by simp
next
  case (Cons l rest)
  from Cons.prems have a: "WsClose \<notin> set (line_effects parse accepts l)"
    by (simp add: server_lines_Cons [of parse accepts l rest] del: server_lines.simps
        split: if_splits)
  with Cons.prems have "WsClose \<notin> set (server_lines parse accepts rest)"
    by (simp add: server_lines_Cons [of parse accepts l rest] del: server_lines.simps)
  then have "upto_done parse accepts rest = rest"
    by (rule Cons.IH)
  with a show ?case by simp
qed

lemma concat_chunk_lines:
  "0x0A \<notin> set b \<Longrightarrow> concat (chunk_lines b cs) = butlast (split_nl (b @ concat cs))"
proof (induction cs arbitrary: b)
  case Nil
  then show ?case by (simp add: split_nl_no_newline)
next
  case (Cons c cs)
  have "concat (chunk_lines (last (split_nl (b @ c))) cs) =
      butlast (split_nl (last (split_nl (b @ c)) @ concat cs))"
    by (rule Cons.IH) (rule last_split_nl_no_newline)
  then show ?case
    using butlast_split_nl_append [of "b @ c" "concat cs"]
    by (simp del: split_nl.simps)
qed

lemma server_run_lines:
  "snd (server_run parse accepts b (map Data cs)) =
     concat (map (line_effects parse accepts)
       (concat (map (upto_done parse accepts) (chunk_lines b cs))))"
proof (induction cs arbitrary: b)
  case Nil
  show ?case by simp
next
  case (Cons c cs)
  have "snd (server_run parse accepts b (map Data (c # cs))) =
      server_lines parse accepts (butlast (split_nl (b @ c))) @
      snd (server_run parse accepts (last (split_nl (b @ c))) (map Data cs))"
    by (simp add: server_on_data_def Let_def pop_or_empty_split split: prod.splits
        del: split_nl.simps server_lines.simps)
  then show ?case
    by (simp add: Cons.IH server_lines_upto_done del: split_nl.simps server_lines.simps)
qed

text \<open>
  C6. For every sequence of chunks fed in order to the data handler of
  \<^verbatim>\<open>server.js\<close>, the effects are exactly the effects of the loop body on the
  lines it reaches, line after line: the chunks are taken in the order fed, the
  complete lines of a chunk first to last, up to and including a line at which the
  handler closes the socket and returns. The complete lines the chunks bring are,
  in this order, the segments but the last of the newline split of the concatenated
  input, and the lines reached in a chunk are a prefix of its lines: no effect is
  moved or repeated. When no \<^verbatim>\<open>ws.close()\<close> occurs, every line of the split
  contributes, in the order of the split.
\<close>

theorem emission_order:
  "snd (server_run parse accepts [] (map Data cs)) =
     concat (map (line_effects parse accepts)
       (concat (map (upto_done parse accepts) (chunk_lines [] cs)))) \<and>
   concat (chunk_lines [] cs) = butlast (split_nl (concat cs)) \<and>
   prefix (upto_done parse accepts ls) ls \<and>
   (WsClose \<notin> set (snd (server_run parse accepts [] (map Data cs))) \<longrightarrow>
      snd (server_run parse accepts [] (map Data cs)) =
        concat (map (line_effects parse accepts) (butlast (split_nl (concat cs)))))"
proof -
  have 1: "snd (server_run parse accepts [] (map Data cs)) =
     concat (map (line_effects parse accepts)
       (concat (map (upto_done parse accepts) (chunk_lines [] cs))))"
    by (rule server_run_lines)
  have 2: "concat (chunk_lines [] cs) = butlast (split_nl (concat cs))"
    using concat_chunk_lines [of "[]" cs] by simp
  have 3: "prefix (upto_done parse accepts ls) ls"
    by (rule upto_done_prefix)
  have 4: "snd (server_run parse accepts [] (map Data cs)) =
        concat (map (line_effects parse accepts) (butlast (split_nl (concat cs))))"
    if nc: "WsClose \<notin> set (snd (server_run parse accepts [] (map Data cs)))"
  proof -
    let ?E = "snd (server_run parse accepts [] (map Data cs))"
    let ?L = "butlast (split_nl (concat cs))"
    have "until_close ?E = ?E"
      using nc by (rule until_close_none)
    then have "snd (server_on_data parse accepts [] (concat cs)) = ?E"
      using server_run_chunks [of "[]" parse accepts cs] by simp
    then have e: "server_lines parse accepts ?L = ?E"
      by (simp add: server_on_data_def Let_def)
    with nc have "WsClose \<notin> set (server_lines parse accepts ?L)"
      by simp
    then have "upto_done parse accepts ?L = ?L"
      by (rule upto_done_all)
    then have "server_lines parse accepts ?L = concat (map (line_effects parse accepts) ?L)"
      using server_lines_upto_done [of parse accepts ?L] by simp
    with e show ?thesis by simp
  qed
  from 1 2 3 4 show ?thesis by blast
qed

theorem emission_order_witness:
  \<open>WsClose \<notin> set (snd (server_run JSON_parse ws_accepts []
       (map Data [js ''{"response":"a"}\<newline>{"re'', js ''sponse":"b"}\<newline>'']))) \<and>
   snd (server_run JSON_parse ws_accepts []
       (map Data [js ''{"response":"a"}\<newline>{"re'', js ''sponse":"b"}\<newline>''])) =
     [WsSend (JStr (js ''a'')), WsSend (JStr (js ''b''))] \<and>
   concat (map (line_effects JSON_parse ws_accepts)
       (butlast (split_nl
          (concat [js ''{"response":"a"}\<newline>{"re'', js ''sponse":"b"}\<newline>''])))) =
     [WsSend (JStr (js ''a'')), WsSend (JStr (js ''b''))]\<close>
proof -
  have h: \<open>snd (server_run JSON_parse ws_accepts []
       (map Data [js ''{"response":"a"}\<newline>{"re'', js ''sponse":"b"}\<newline>''])) =
     [WsSend (JStr (js ''a'')), WsSend (JStr (js ''b''))]\<close>
    by (simp add: eval_defs)
  have n: \<open>WsClose \<notin> set (snd (server_run JSON_parse ws_accepts []
       (map Data [js ''{"response":"a"}\<newline>{"re'', js ''sponse":"b"}\<newline>''])))\<close>
    by (simp only: h) simp
  have \<open>snd (server_run JSON_parse ws_accepts []
       (map Data [js ''{"response":"a"}\<newline>{"re'', js ''sponse":"b"}\<newline>''])) =
     concat (map (line_effects JSON_parse ws_accepts)
       (butlast (split_nl
          (concat [js ''{"response":"a"}\<newline>{"re'', js ''sponse":"b"}\<newline>'']))))\<close>
    using n emission_order [of JSON_parse ws_accepts
        \<open>[js ''{"response":"a"}\<newline>{"re'', js ''sponse":"b"}\<newline>'']\<close>]
    by blast
  with h n show ?thesis by (simp only:) simp
qed

section \<open>C7: the two tests on a record\<close>





section \<open>C8: an error of the stream\<close>

lemma server_run_append:
  "server_run parse accepts b (xs @ ys) =
     (fst (server_run parse accepts (fst (server_run parse accepts b xs)) ys),
      snd (server_run parse accepts b xs) @ snd (server_run parse accepts (fst (server_run parse accepts b xs)) ys))"
  by (induction xs arbitrary: b) (simp_all add: split_beta Let_def)

lemma activity_run_append:
  "activity_run parse cid model st (xs @ ys) =
     (fst (activity_run parse cid model (fst (activity_run parse cid model st xs)) ys),
      snd (activity_run parse cid model st xs) @
      snd (activity_run parse cid model (fst (activity_run parse cid model st xs)) ys))"
  by (induction xs arbitrary: st) (simp_all add: split_beta Let_def)

text \<open>
  C8. When the body signals an error after any sequence of events, the effects so far
  stay as they are and the error handler adds its own: \<^verbatim>\<open>server.js\<close> logs the
  error, sends the stream error text and closes the socket; \<^verbatim>\<open>server-activity.js\<close>
  logs it and sends a frame of type \<^verbatim>\<open>error\<close>. The end handler never sends that
  text or that frame, whatever the buffer holds, so an error and a normal end of the
  stream are told apart.
\<close>

theorem transport_error:
  "server_run parse accepts b (evs @ [Error err]) =
     (fst (server_run parse accepts b evs),
      snd (server_run parse accepts b evs) @
      [ConsoleError (js ''Stream error:'') err, WsSend stream_error_text, WsClose]) \<and>
   WsSend stream_error_text \<notin> set (server_on_end parse b') \<and>
   server_on_end parse b' \<noteq> server_on_error err \<and>
   activity_run parse cid model st (evs @ [Error err]) =
     (fst (activity_run parse cid model st evs),
      snd (activity_run parse cid model st evs) @
      [LogActivity cid (js ''STREAM_ERROR'') (JObj [(js ''error'', JStr err)]),
       SendTo cid (JObj [(js ''type'', JStr (js ''error'')),
                         (js ''message'', JStr (js ''Stream error occurred''))])]) \<and>
   SendTo cid (JObj [(js ''type'', JStr (js ''error'')),
                     (js ''message'', JStr (js ''Stream error occurred''))])
     \<notin> set (activity_on_end parse cid st') \<and>
   activity_on_end parse cid st' \<noteq> activity_on_error cid (JStr err)"
proof -
  have 1: "server_run parse accepts b (evs @ [Error err]) =
     (fst (server_run parse accepts b evs),
      snd (server_run parse accepts b evs) @
      [ConsoleError (js ''Stream error:'') err, WsSend stream_error_text, WsClose])"
    by (simp add: server_run_append server_on_error_def)
  have ne: "stream_error_text \<noteq> generation_complete"
    by (simp add: stream_error_text_def generation_complete_def js_def)
  have 2: "WsSend stream_error_text \<notin> set (server_on_end parse b')"
    using ne by (auto simp: server_on_end_def split: option.splits)
  have 3: "server_on_end parse b' \<noteq> server_on_error err"
    using 2 by (auto simp: server_on_error_def)
  have 4: "activity_run parse cid model st (evs @ [Error err]) =
     (fst (activity_run parse cid model st evs),
      snd (activity_run parse cid model st evs) @
      [LogActivity cid (js ''STREAM_ERROR'') (JObj [(js ''error'', JStr err)]),
       SendTo cid (JObj [(js ''type'', JStr (js ''error'')),
                         (js ''message'', JStr (js ''Stream error occurred''))])])"
    by (simp add: activity_run_append activity_on_error_def)
  have 5: "SendTo cid (JObj [(js ''type'', JStr (js ''error'')),
                     (js ''message'', JStr (js ''Stream error occurred''))])
     \<notin> set (activity_on_end parse cid st')"
    by (auto simp: activity_on_end_def js_def split: option.splits)
  have 6: "activity_on_end parse cid st' \<noteq> activity_on_error cid (JStr err)"
    by (auto simp: activity_on_end_def activity_on_error_def split: option.splits)
  from 1 2 3 4 5 6 show ?thesis by blast
qed

section \<open>C9: who receives a broadcast\<close>

lemma broadcast_filter:
  "broadcast now message ex clients =
     map (\<lambda>(i, c). SendTo i (broadcast_frame (now i) message))
       (filter (\<lambda>(i, c). Some i \<noteq> ex \<and> readyState (ws c) = 1) clients)"
proof (induction clients)
  case Nil
  show ?case by simp
next
  case (Cons x xs)
  obtain i c where x: "x = (i, c)" by (cases x)
  show ?case
    unfolding x using Cons.IH by (cases "Some i \<noteq> ex \<and> readyState (ws c) = 1") simp_all
qed

lemma broadcast_member:
  "(SendTo i f \<in> set (broadcast now message ex clients)) =
     (f = broadcast_frame (now i) message \<and> Some i \<noteq> ex \<and>
      (\<exists>c. (i, c) \<in> set clients \<and> readyState (ws c) = 1))"
  unfolding broadcast_filter by (auto simp: image_iff)

text \<open>
  C9. \<^verbatim>\<open>broadcast(message, excludeClientId)\<close> sends the broadcast frame to the
  clients of the registry, in its order, whose id is not the excluded one and whose
  socket has \<^verbatim>\<open>readyState\<close> 1, and to no one else: a client gets the frame if
  and only if it is registered, not excluded and open. In \<^verbatim>\<open>handleBroadcast\<close>
  the sender is the excluded client: it gets no broadcast frame, and whoever gets one
  is another client whose socket is open.
\<close>

theorem broadcast_exclusion:
  "broadcast now message ex clients =
     map (\<lambda>(i, c). SendTo i (broadcast_frame (now i) message))
       (filter (\<lambda>(i, c). Some i \<noteq> ex \<and> readyState (ws c) = 1) clients) \<and>
   (SendTo i f \<in> set (broadcast now message ex clients)) =
     (f = broadcast_frame (now i) message \<and> Some i \<noteq> ex \<and>
      (\<exists>c. (i, c) \<in> set clients \<and> readyState (ws c) = 1)) \<and>
   (handleBroadcast now sent_at clients cid msg = Inr es \<longrightarrow>
      SendTo cid (broadcast_frame stamp any) \<notin> set es \<and>
      (SendTo j (broadcast_frame stamp any) \<in> set es \<longrightarrow>
         j \<noteq> cid \<and> (\<exists>c. (j, c) \<in> set clients \<and> readyState (ws c) = 1)))"
proof -
  have ack: "JObj [(js ''type'', JStr (js ''broadcast_sent'')),
                   (js ''message'', JStr (js ''Message broadcasted to all clients''))]
             \<noteq> broadcast_frame stamp any"
    by (simp add: broadcast_frame_def)
  have 3: "SendTo cid (broadcast_frame stamp any) \<notin> set es \<and>
      (SendTo j (broadcast_frame stamp any) \<in> set es \<longrightarrow>
         j \<noteq> cid \<and> (\<exists>c. (j, c) \<in> set clients \<and> readyState (ws c) = 1))"
    if "handleBroadcast now sent_at clients cid msg = Inr es"
    using that ack
    by (auto simp: handleBroadcast_def broadcast_member split: option.splits jsval.splits)
  show ?thesis
    using broadcast_filter [of now message ex clients]
      broadcast_member [of i f now message ex clients] 3
    by blast
qed

theorem broadcast_exclusion_witness:
  \<open>handleBroadcast (\<lambda>i. js ''t'') (js ''t'')
      [(1, \<lparr>ws = \<lparr>socket = 1, readyState = 1\<rparr>, name = JStr (js ''ann''), connectedAt = 0,
            lastActivity = 0, ip = JNull, userAgent = JNull\<rparr>),
       (2, \<lparr>ws = \<lparr>socket = 2, readyState = 1\<rparr>, name = JStr (js ''bob''), connectedAt = 0,
            lastActivity = 0, ip = JNull, userAgent = JNull\<rparr>),
       (3, \<lparr>ws = \<lparr>socket = 3, readyState = 2\<rparr>, name = JStr (js ''cy''), connectedAt = 0,
            lastActivity = 0, ip = JNull, userAgent = JNull\<rparr>)]
      1 (JStr (js ''hi'')) =
    Inr [LogActivity 1 (js ''BROADCAST_SENT'') (JObj [(js ''message'', JStr (js ''hi...''))]),
         SendTo 2 (broadcast_frame (js ''t'')
           (JObj [(js ''type'', JStr (js ''user_broadcast'')), (js ''from'', JStr (js ''ann'')),
                  (js ''fromId'', JNum 1 0), (js ''message'', JStr (js ''hi'')),
                  (js ''timestamp'', JStr (js ''t''))])),
         SendTo 1 (JObj [(js ''type'', JStr (js ''broadcast_sent'')),
                         (js ''message'', JStr (js ''Message broadcasted to all clients''))])] \<and>
   SendTo 1 (broadcast_frame (js ''t'') JNull)
     \<notin> set [LogActivity 1 (js ''BROADCAST_SENT'') (JObj [(js ''message'', JStr (js ''hi...''))]),
         SendTo 2 (broadcast_frame (js ''t'')
           (JObj [(js ''type'', JStr (js ''user_broadcast'')), (js ''from'', JStr (js ''ann'')),
                  (js ''fromId'', JNum 1 0), (js ''message'', JStr (js ''hi'')),
                  (js ''timestamp'', JStr (js ''t''))])),
         SendTo 1 (JObj [(js ''type'', JStr (js ''broadcast_sent'')),
                         (js ''message'', JStr (js ''Message broadcasted to all clients''))])]\<close>
proof -
  have h: \<open>handleBroadcast (\<lambda>i. js ''t'') (js ''t'')
      [(1, \<lparr>ws = \<lparr>socket = 1, readyState = 1\<rparr>, name = JStr (js ''ann''), connectedAt = 0,
            lastActivity = 0, ip = JNull, userAgent = JNull\<rparr>),
       (2, \<lparr>ws = \<lparr>socket = 2, readyState = 1\<rparr>, name = JStr (js ''bob''), connectedAt = 0,
            lastActivity = 0, ip = JNull, userAgent = JNull\<rparr>),
       (3, \<lparr>ws = \<lparr>socket = 3, readyState = 2\<rparr>, name = JStr (js ''cy''), connectedAt = 0,
            lastActivity = 0, ip = JNull, userAgent = JNull\<rparr>)]
      1 (JStr (js ''hi'')) =
    Inr [LogActivity 1 (js ''BROADCAST_SENT'') (JObj [(js ''message'', JStr (js ''hi...''))]),
         SendTo 2 (broadcast_frame (js ''t'')
           (JObj [(js ''type'', JStr (js ''user_broadcast'')), (js ''from'', JStr (js ''ann'')),
                  (js ''fromId'', JNum 1 0), (js ''message'', JStr (js ''hi'')),
                  (js ''timestamp'', JStr (js ''t''))])),
         SendTo 1 (JObj [(js ''type'', JStr (js ''broadcast_sent'')),
                         (js ''message'', JStr (js ''Message broadcasted to all clients''))])]\<close>
    by (simp add: handleBroadcast_def js_def)
  show ?thesis
    using h broadcast_exclusion [where cid = 1 and stamp = \<open>js ''t''\<close> and any = JNull
        and now = \<open>\<lambda>i. js ''t''\<close> and sent_at = \<open>js ''t''\<close> and msg = \<open>JStr (js ''hi'')\<close>]
    by blast
qed

section \<open>C10: setting a name\<close>

lemma map_of_set_client_name:
  "map_of (set_client_name cid n clients) i =
     (if i = cid then map_option (\<lambda>c. c\<lparr>name := n\<rparr>) (map_of clients i) else map_of clients i)"
  by (induction clients) (auto simp: set_client_name_def)

lemma keys_set_client_name: "map fst (set_client_name cid n clients) = map fst clients"
  by (induction clients) (auto simp: set_client_name_def)

lemma map_of_map_set: "map_of (map_set k v clients) k = Some v"
proof (cases "k \<in> fst ` set clients")
  case True
  then show ?thesis
    by (induction clients) (auto simp: map_set_def)
next
  case False
  then have "map_of clients k = None"
    by (simp add: map_of_eq_None_iff)
  with False show ?thesis
    by (simp add: map_set_def map_add_def)
qed

text \<open>
  C10. For a registered client, \<^verbatim>\<open>handleSetName\<close> leaves the ids of the registry
  and their order as they are, leaves the entry of every other client as it is, and
  changes the entry of the client in its \<^verbatim>\<open>name\<close> only: the socket, the time of
  connection, the time of the last activity, the address and the user agent stay.
  The new name is the supplied one when that is truthy; when it is absent or the
  empty string, it is \<^verbatim>\<open>Client-\<close> followed by the id, the name the client got
  when it connected. (The message handler stamps \<^verbatim>\<open>lastActivity\<close> on every
  message before it dispatches; that is not part of \<^verbatim>\<open>handleSetName\<close>.)
\<close>

theorem set_name_frame:
  assumes "map_of clients cid = Some c"
  shows
    "map fst (fst (handleSetName to_string now1 now2 iso_date clients cid newName)) = map fst clients \<and>
     map_of (fst (handleSetName to_string now1 now2 iso_date clients cid newName)) cid =
       Some (c\<lparr>name := (if truthy newName then newName else default_name cid)\<rparr>) \<and>
     (i \<noteq> cid \<longrightarrow>
        map_of (fst (handleSetName to_string now1 now2 iso_date clients cid newName)) i =
          map_of clients i) \<and>
     (newName = JUndefined \<or> newName = JStr [] \<longrightarrow>
        map_of (fst (handleSetName to_string now1 now2 iso_date clients cid newName)) cid =
          Some (c\<lparr>name := JStr (js ''Client-'' @ show_nat cid)\<rparr>)) \<and>
     map_of (snd (register_client counter sock t1 t2 addr agent clients))
         (fst (register_client counter sock t1 t2 addr agent clients)) =
       Some \<lparr>ws = sock, name = JStr (js ''Client-'' @ show_nat (counter + 1)), connectedAt = t1,
             lastActivity = t2, ip = addr, userAgent = agent\<rparr>"
proof -
  let ?n = "if truthy newName then newName else default_name cid"
  have f: "fst (handleSetName to_string now1 now2 iso_date clients cid newName) =
      set_client_name cid ?n clients"
    using assms by (simp add: handleSetName_def Let_def)
  have 1: "map fst (fst (handleSetName to_string now1 now2 iso_date clients cid newName)) =
      map fst clients"
    by (simp only: f keys_set_client_name)
  have 2: "map_of (fst (handleSetName to_string now1 now2 iso_date clients cid newName)) cid =
       Some (c\<lparr>name := ?n\<rparr>)"
    using assms by (simp only: f map_of_set_client_name) simp
  have 3: "map_of (fst (handleSetName to_string now1 now2 iso_date clients cid newName)) i =
          map_of clients i" if "i \<noteq> cid"
    using that by (simp only: f map_of_set_client_name) simp
  have 4: "map_of (fst (handleSetName to_string now1 now2 iso_date clients cid newName)) cid =
          Some (c\<lparr>name := JStr (js ''Client-'' @ show_nat cid)\<rparr>)"
    if "newName = JUndefined \<or> newName = JStr []"
    using that 2 by (auto simp: default_name_def)
  have 5: "map_of (snd (register_client counter sock t1 t2 addr agent clients))
         (fst (register_client counter sock t1 t2 addr agent clients)) =
       Some \<lparr>ws = sock, name = JStr (js ''Client-'' @ show_nat (counter + 1)), connectedAt = t1,
             lastActivity = t2, ip = addr, userAgent = agent\<rparr>"
    by (simp add: register_client_def Let_def map_of_map_set default_name_def)
  from 1 2 3 4 5 show ?thesis by blast
qed

theorem set_name_frame_witness:
  \<open>map_of (fst (handleSetName (\<lambda>v. []) (\<lambda>i. []) (\<lambda>i. []) (\<lambda>i. [])
      [(1, \<lparr>ws = \<lparr>socket = 1, readyState = 1\<rparr>, name = JStr (js ''ann''), connectedAt = 5,
            lastActivity = 6, ip = JNull, userAgent = JNull\<rparr>),
       (12, \<lparr>ws = \<lparr>socket = 2, readyState = 1\<rparr>, name = JStr (js ''bob''), connectedAt = 7,
            lastActivity = 8, ip = JNull, userAgent = JNull\<rparr>)]
      12 (JStr []))) 12 =
     Some \<lparr>ws = \<lparr>socket = 2, readyState = 1\<rparr>, name = JStr (js ''Client-12''), connectedAt = 7,
            lastActivity = 8, ip = JNull, userAgent = JNull\<rparr> \<and>
   map_of (fst (handleSetName (\<lambda>v. []) (\<lambda>i. []) (\<lambda>i. []) (\<lambda>i. [])
      [(1, \<lparr>ws = \<lparr>socket = 1, readyState = 1\<rparr>, name = JStr (js ''ann''), connectedAt = 5,
            lastActivity = 6, ip = JNull, userAgent = JNull\<rparr>),
       (12, \<lparr>ws = \<lparr>socket = 2, readyState = 1\<rparr>, name = JStr (js ''bob''), connectedAt = 7,
            lastActivity = 8, ip = JNull, userAgent = JNull\<rparr>)]
      12 (JStr []))) 1 =
     Some \<lparr>ws = \<lparr>socket = 1, readyState = 1\<rparr>, name = JStr (js ''ann''), connectedAt = 5,
            lastActivity = 6, ip = JNull, userAgent = JNull\<rparr>\<close>
proof -
  have h: \<open>map_of
      [(1::nat, \<lparr>ws = \<lparr>socket = 1, readyState = 1\<rparr>, name = JStr (js ''ann''), connectedAt = 5,
            lastActivity = 6, ip = JNull, userAgent = JNull\<rparr>),
       (12, \<lparr>ws = \<lparr>socket = 2, readyState = 1\<rparr>, name = JStr (js ''bob''), connectedAt = 7,
            lastActivity = 8, ip = JNull, userAgent = JNull\<rparr>)] 12 =
     Some \<lparr>ws = \<lparr>socket = 2, readyState = 1\<rparr>, name = JStr (js ''bob''), connectedAt = 7,
            lastActivity = 8, ip = JNull, userAgent = JNull\<rparr>\<close>
    by simp
  have d: "show_nat 12 = js ''12''"
    by code_simp
  show ?thesis
    using d set_name_frame [OF h, where newName = "JStr []" and i = 1
        and to_string = "\<lambda>v. []" and ?now1.0 = "\<lambda>i. []" and ?now2.0 = "\<lambda>i. []"
        and iso_date = "\<lambda>i. []"]
    by (simp add: js_def default_name_def)
qed

end
